theory Spec2Isabelle
  imports Complex_Main "HOL-Library.Word"
begin

section \<open>Tensors\<close>

text \<open>
  The function \<open>scale_jittering_tensor_with_fixed_size_output\<close> of
  \<open>tf_image_segmentation/utils/augmentation.py\<close> works on rank-3 tensors of shape
  (height, width, depth).  A tensor is modelled as a list of rows, a row as a list of
  pixels and a pixel as the list of its channel values.  A TensorFlow tensor is always
  rectangular; \<open>has_shape\<close> states this for a nested list.

  Two idealisations are made throughout.  The float32 values of lines 62-72 are modelled
  by exact rational numbers, so the rounding error of single-precision arithmetic is not
  part of the model.  The annotation is taken as it is after the conversion
  \<open>tf.to_int32\<close> of line 57: a tensor of 32-bit integers whose arithmetic wraps around.
\<close>

type_synonym 'a tensor = "'a list list list"

type_synonym int32 = "32 word"

definition height :: "'a tensor \<Rightarrow> nat" where
  "height t = length t"

definition width :: "'a tensor \<Rightarrow> nat" where
  "width t = (case t of [] \<Rightarrow> 0 | row # _ \<Rightarrow> length row)"

definition depth :: "'a tensor \<Rightarrow> nat" where
  "depth t = (case t of [] \<Rightarrow> 0 | row # _ \<Rightarrow> (case row of [] \<Rightarrow> 0 | px # _ \<Rightarrow> length px))"

definition has_shape :: "'a tensor \<Rightarrow> nat \<Rightarrow> nat \<Rightarrow> nat \<Rightarrow> bool" where
  "has_shape t h w c \<longleftrightarrow>
     length t = h \<and> (\<forall>row \<in> set t. length row = w \<and> (\<forall>px \<in> set row. length px = c))"

text \<open>Elementwise operations (\<open>x + 1\<close>, \<open>tf.equal(x, 0)\<close>, \<open>x + y\<close> on tensors).\<close>

definition tf_map :: "('a \<Rightarrow> 'b) \<Rightarrow> 'a tensor \<Rightarrow> 'b tensor" where
  "tf_map f t = map (map (map f)) t"

definition tf_map2 :: "('a \<Rightarrow> 'b \<Rightarrow> 'c) \<Rightarrow> 'a tensor \<Rightarrow> 'b tensor \<Rightarrow> 'c tensor" where
  "tf_map2 f s t = map2 (map2 (map2 f)) s t"

text \<open>The set of values that occur in a tensor.\<close>

definition tensor_values :: "'a tensor \<Rightarrow> 'a set" where
  "tensor_values t = (\<Union>row \<in> set t. \<Union>px \<in> set row. set px)"

section \<open>The TensorFlow operations the function calls\<close>

datatype error = InvalidArgument | ValueError

text \<open>
  \<open>tf.image.resize_nearest_neighbor\<close> (with the default \<open>align_corners=False\<close>): the
  output sample at index \<open>y\<close> of an axis is the input sample at index
  \<open>min (floor (y * in_size / out_size)) (in_size - 1)\<close>.  The kernel rejects an output
  size that is not positive, an image without channels and an empty input image.
\<close>

definition nearest_index :: "nat \<Rightarrow> nat \<Rightarrow> nat \<Rightarrow> nat" where
  "nearest_index in_size out_size y =
     min (nat \<lfloor>rat_of_nat y * (rat_of_nat in_size / rat_of_nat out_size)\<rfloor>) (in_size - 1)"

definition resize_nearest_neighbor :: "'a tensor \<Rightarrow> int \<times> int \<Rightarrow> error + 'a tensor" where
  "resize_nearest_neighbor imgs new_size =
     (let out_height = fst new_size; out_width = snd new_size in
      if out_height \<le> 0 \<or> out_width \<le> 0 then Inl InvalidArgument
      else if depth imgs = 0 then Inl InvalidArgument
      else if height imgs = 0 \<or> width imgs = 0 then Inl InvalidArgument
      else Inr (map (\<lambda>y. map (\<lambda>x. imgs ! nearest_index (height imgs) (nat out_height) y
                                        ! nearest_index (width imgs) (nat out_width) x)
                              [0..<nat out_width])
                    [0..<nat out_height]))"

text \<open>
  \<open>tf.image.crop_to_bounding_box\<close> and \<open>tf.image.pad_to_bounding_box\<close>, as
  \<open>resize_image_with_crop_or_pad\<close> calls them: a slice of the rows and columns, and
  zero padding before and after the rows and columns.
\<close>

definition crop_to_bounding_box :: "'a tensor \<Rightarrow> nat \<Rightarrow> nat \<Rightarrow> nat \<Rightarrow> nat \<Rightarrow> 'a tensor" where
  "crop_to_bounding_box img offset_height offset_width target_height target_width =
     map (\<lambda>row. take target_width (drop offset_width row))
         (take target_height (drop offset_height img))"

definition pad_to_bounding_box ::
  "'a::zero tensor \<Rightarrow> nat \<Rightarrow> nat \<Rightarrow> nat \<Rightarrow> nat \<Rightarrow> 'a tensor" where
  "pad_to_bounding_box img offset_height offset_width target_height target_width =
     (let after_padding_width = target_width - offset_width - width img;
          after_padding_height = target_height - offset_height - height img;
          zero_pixel = replicate (depth img) 0;
          zero_row = replicate target_width zero_pixel
      in replicate offset_height zero_row
         @ map (\<lambda>row. replicate offset_width zero_pixel @ row
                        @ replicate after_padding_width zero_pixel) img
         @ replicate after_padding_height zero_row)"

text \<open>
  \<open>tf.image.resize_image_with_crop_or_pad\<close>: crops and pads centrally.  The offsets are
  computed with Python's floor division, which is \<open>div\<close> on \<open>int\<close>.
\<close>

definition resize_image_with_crop_or_pad ::
  "'a::zero tensor \<Rightarrow> int \<Rightarrow> int \<Rightarrow> error + 'a tensor" where
  "resize_image_with_crop_or_pad img target_height target_width =
     (if target_width \<le> 0 then Inl ValueError
      else if target_height \<le> 0 then Inl ValueError
      else
        let image_height = int (height img);
            image_width = int (width img);
            width_diff = target_width - image_width;
            offset_crop_width = max ((- width_diff) div 2) 0;
            offset_pad_width = max (width_diff div 2) 0;
            height_diff = target_height - image_height;
            offset_crop_height = max ((- height_diff) div 2) 0;
            offset_pad_height = max (height_diff div 2) 0;
            cropped = crop_to_bounding_box img (nat offset_crop_height) (nat offset_crop_width)
                        (nat (min target_height image_height)) (nat (min target_width image_width));
            padded = pad_to_bounding_box cropped (nat offset_pad_height) (nat offset_pad_width)
                        (nat target_height) (nat target_width)
        in Inr padded)"

text \<open>\<open>tf.round\<close> rounds to the nearest integer, a tie to the even one.\<close>

definition tf_round :: "rat \<Rightarrow> int" where
  "tf_round x =
     (let f = \<lfloor>x\<rfloor>; d = x - of_int f in
      if d < 1 / 2 then f else if 1 / 2 < d then f + 1 else if even f then f else f + 1)"

text \<open>
  \<open>tf.random_uniform\<close> maps a sample \<open>u\<close> of the unit interval \<open>[0, 1)\<close> to
  \<open>u * (maxval - minval) + minval\<close>.  The sample is an explicit argument of the model.
\<close>

definition random_uniform :: "rat \<Rightarrow> rat \<Rightarrow> rat \<Rightarrow> rat" where
  "random_uniform minval maxval u = u * (maxval - minval) + minval"

section \<open>The function\<close>

text \<open>Lines 60-72: the shape the image and the annotation are resized to.\<close>

definition scaled_input_shape :: "'a tensor \<Rightarrow> int \<times> int \<Rightarrow> rat \<Rightarrow> int \<times> int" where
  "scaled_input_shape img_tensor output_shape rand_var =
     (let input_shape_float = (rat_of_nat (height img_tensor), rat_of_nat (width img_tensor));
          scales = (of_int (fst output_shape) / fst input_shape_float,
                    of_int (snd output_shape) / snd input_shape_float);
          final_scale = min (fst scales) (snd scales) * rand_var
      in (tf_round (fst input_shape_float * final_scale),
          tf_round (snd input_shape_float * final_scale)))"

text \<open>Lines 97-99: the pixels that are zero after padding get the mask-out value.\<close>

definition mask_out :: "int32 tensor \<Rightarrow> int32 \<Rightarrow> int32 tensor" where
  "mask_out cropped_padded_annotation mask_out_number =
     (let annotation_additional_mask_out =
            tf_map (\<lambda>v. (if v = 0 then 1 else 0) * (mask_out_number + 1))
                   cropped_padded_annotation
      in tf_map (\<lambda>v. v - 1)
           (tf_map2 (+) cropped_padded_annotation annotation_additional_mask_out))"

text \<open>
  Lines 51-101.  The operations run in the order of the source: both resizes, the shift of
  the classes, both crop-or-pad calls, the masking.  The first error ends the run.
\<close>

definition scale_jittering_tensor_with_fixed_size_output ::
  "'a::zero tensor \<Rightarrow> int32 tensor \<Rightarrow> int \<times> int \<Rightarrow> rat \<Rightarrow> rat \<Rightarrow> int32 \<Rightarrow> rat
   \<Rightarrow> error + ('a tensor \<times> int32 tensor)" where
  "scale_jittering_tensor_with_fixed_size_output img_tensor annotation_tensor output_shape
     min_relative_random_scale_change max_realtive_random_scale_change mask_out_number u =
     (let rand_var = random_uniform min_relative_random_scale_change
                       max_realtive_random_scale_change u;
          new_size = scaled_input_shape img_tensor output_shape rand_var
      in case resize_nearest_neighbor img_tensor new_size of
           Inl e \<Rightarrow> Inl e
         | Inr resized_img \<Rightarrow>
       (case resize_nearest_neighbor annotation_tensor new_size of
           Inl e \<Rightarrow> Inl e
         | Inr resized_annotation \<Rightarrow>
       (let annotation_shifted_classes = tf_map (\<lambda>v. v + 1) resized_annotation
        in case resize_image_with_crop_or_pad resized_img
                  (fst output_shape) (snd output_shape) of
           Inl e \<Rightarrow> Inl e
         | Inr cropped_padded_img \<Rightarrow>
       (case resize_image_with_crop_or_pad annotation_shifted_classes
                  (fst output_shape) (snd output_shape) of
           Inl e \<Rightarrow> Inl e
         | Inr cropped_padded_annotation \<Rightarrow>
             Inr (cropped_padded_img, mask_out cropped_padded_annotation mask_out_number)))))"

section \<open>Notions of the specification\<close>

text \<open>
  Where an output sample comes from.  Along one axis, \<open>content_index s t y\<close> is the index
  in the resized tensor (of length \<open>s\<close>) that index \<open>y\<close> of the cropped or padded tensor
  (of length \<open>t\<close>) shows, and \<open>None\<close> when \<open>y\<close> lies in the padding.  \<open>origin\<close> follows the
  sample further back, through the nearest-neighbour resize, to the input of length \<open>n\<close>.
\<close>

definition content_index :: "nat \<Rightarrow> nat \<Rightarrow> nat \<Rightarrow> nat option" where
  "content_index s t y =
     (let pad = (t - s) div 2; crop = (s - t) div 2 in
      if pad \<le> y \<and> y < pad + min t s then Some (y - pad + crop) else None)"

definition origin :: "nat \<Rightarrow> nat \<Rightarrow> nat \<Rightarrow> nat \<Rightarrow> nat option" where
  "origin n s t y = map_option (nearest_index n s) (content_index s t y)"


text \<open>
  The inputs the specification calls valid: an image of shape (H, W, C) and an annotation
  of shape (H, W, 1) with H, W and C at least 1, and an output shape of positive integers.
\<close>

definition valid_input :: "'a tensor \<Rightarrow> int32 tensor \<Rightarrow> int \<times> int \<Rightarrow> bool" where
  "valid_input img_tensor annotation_tensor output_shape \<longleftrightarrow>
     0 < height img_tensor \<and> 0 < width img_tensor \<and> 0 < depth img_tensor \<and>
     has_shape img_tensor (height img_tensor) (width img_tensor) (depth img_tensor) \<and>
     has_shape annotation_tensor (height img_tensor) (width img_tensor) 1 \<and>
     0 < fst output_shape \<and> 0 < snd output_shape"


text \<open>
  The pipeline as the specification words it (section 4.1, steps 1 to 9): the annotation
  is shifted first, and the shifted annotation is resized.
\<close>

definition spec_scaled_shape :: "nat \<times> nat \<Rightarrow> int \<times> int \<Rightarrow> rat \<Rightarrow> int \<times> int" where
  "spec_scaled_shape inputShape outputShape r =
     (let scale_h = of_int (fst outputShape) / rat_of_nat (fst inputShape);
          scale_w = of_int (snd outputShape) / rat_of_nat (snd inputShape);
          fitScale = min scale_h scale_w;
          finalScale = fitScale * r
      in (tf_round (rat_of_nat (fst inputShape) * finalScale),
          tf_round (rat_of_nat (snd inputShape) * finalScale)))"

definition spec_transform ::
  "'a::zero tensor \<Rightarrow> int32 tensor \<Rightarrow> int \<times> int \<Rightarrow> rat \<Rightarrow> rat \<Rightarrow> int32 \<Rightarrow> rat
   \<Rightarrow> error + ('a tensor \<times> int32 tensor)" where
  "spec_transform inImage inAnnotation outputShape minScale maxScale maskOutNumber u =
     (let shifted = tf_map (\<lambda>v. v + 1) inAnnotation;
          r = random_uniform minScale maxScale u;
          scaledShape = spec_scaled_shape (height inImage, width inImage) outputShape r
      in case resize_nearest_neighbor inImage scaledShape of
           Inl e \<Rightarrow> Inl e
         | Inr resizedImage \<Rightarrow>
       (case resize_nearest_neighbor shifted scaledShape of
           Inl e \<Rightarrow> Inl e
         | Inr resizedAnnotation \<Rightarrow>
       (case resize_image_with_crop_or_pad resizedImage (fst outputShape) (snd outputShape) of
           Inl e \<Rightarrow> Inl e
         | Inr croppedImage \<Rightarrow>
       (case resize_image_with_crop_or_pad resizedAnnotation
                (fst outputShape) (snd outputShape) of
           Inl e \<Rightarrow> Inl e
         | Inr croppedAnnotation \<Rightarrow>
             Inr (croppedImage,
                  tf_map (\<lambda>c. c + (if c = 0 then 1 else 0) * (maskOutNumber + 1) - 1)
                         croppedAnnotation)))))"

section \<open>Shapes and samples of the intermediate tensors\<close>

lemma has_shape_height: "has_shape t h w c \<Longrightarrow> height t = h"
  by (simp add: has_shape_def height_def)

lemma has_shape_width: "has_shape t h w c \<Longrightarrow> 0 < h \<Longrightarrow> width t = w"
  by (cases t) (auto simp: has_shape_def width_def)

lemma has_shape_depth: "has_shape t h w c \<Longrightarrow> 0 < h \<Longrightarrow> 0 < w \<Longrightarrow> depth t = c"
  by (cases t; cases "hd t") (auto simp: has_shape_def depth_def)

lemma has_shape_row: "has_shape t h w c \<Longrightarrow> y < h \<Longrightarrow> length (t ! y) = w"
  by (auto simp: has_shape_def)

lemma has_shape_px: "has_shape t h w c \<Longrightarrow> y < h \<Longrightarrow> x < w \<Longrightarrow> length (t ! y ! x) = c"
  unfolding has_shape_def by (metis nth_mem)

lemma has_shapeI:
  assumes "length t = h" and "\<And>y. y < h \<Longrightarrow> length (t ! y) = w"
    and "\<And>y x. y < h \<Longrightarrow> x < w \<Longrightarrow> length (t ! y ! x) = c"
  shows "has_shape t h w c"
  unfolding has_shape_def using assms by (auto simp: in_set_conv_nth)

lemma nearest_index_div: "nearest_index n m y = min ((y * n) div m) (n - 1)"
proof -
  have "rat_of_nat y * (rat_of_nat n / rat_of_nat m) = rat_of_nat (y * n) / rat_of_nat m"
    by simp
  then have "\<lfloor>rat_of_nat y * (rat_of_nat n / rat_of_nat m)\<rfloor> = int ((y * n) div m)"
    by (simp only: floor_divide_of_nat_eq)
  then show ?thesis by (simp add: nearest_index_def)
qed

lemma nearest_index_less: "0 < n \<Longrightarrow> nearest_index n m y < n"
  by (simp add: nearest_index_div)


lemma resize_nearest_neighbor_eq:
  assumes "has_shape t h w c" "0 < h" "0 < w" "0 < c" "0 < sh" "0 < sw"
  shows "resize_nearest_neighbor t (sh, sw) =
     Inr (map (\<lambda>y. map (\<lambda>x. t ! nearest_index h (nat sh) y ! nearest_index w (nat sw) x)
                       [0..<nat sw]) [0..<nat sh])"
  using assms
  by (simp add: resize_nearest_neighbor_def has_shape_height has_shape_width has_shape_depth)

lemma crop_shape:
  assumes "has_shape t h w c" "oh + th \<le> h" "ow + tw \<le> w"
  shows "has_shape (crop_to_bounding_box t oh ow th tw) th tw c"
proof (rule has_shapeI)
  show "length (crop_to_bounding_box t oh ow th tw) = th"
    using assms by (simp add: crop_to_bounding_box_def has_shape_def)
next
  fix y assume "y < th"
  then show "length (crop_to_bounding_box t oh ow th tw ! y) = tw"
    using assms has_shape_row[OF assms(1), of "oh + y"]
    by (simp add: crop_to_bounding_box_def has_shape_def)
next
  fix y x assume "y < th" "x < tw"
  then show "length (crop_to_bounding_box t oh ow th tw ! y ! x) = c"
    using assms has_shape_row[OF assms(1), of "oh + y"] has_shape_px[OF assms(1), of "oh + y" "ow + x"]
    by (simp add: crop_to_bounding_box_def has_shape_def)
qed

lemma crop_nth:
  assumes "has_shape t h w c" "oh + th \<le> h" "ow + tw \<le> w" "y < th" "x < tw"
  shows "crop_to_bounding_box t oh ow th tw ! y ! x = t ! (oh + y) ! (ow + x)"
  using assms has_shape_row[OF assms(1), of "oh + y"]
  by (simp add: crop_to_bounding_box_def has_shape_def)

lemma nth_padded:
  "i < a + length xs + b \<Longrightarrow>
   (replicate a z @ xs @ replicate b z) ! i = (if a \<le> i \<and> i < a + length xs then xs ! (i - a) else z)"
  by (auto simp: nth_append)

lemma pad_nth:
  assumes "has_shape t h w c" "0 < h" "0 < w" "oh + h \<le> th" "ow + w \<le> tw" "y < th" "x < tw"
  shows "pad_to_bounding_box t oh ow th tw ! y ! x =
     (if oh \<le> y \<and> y < oh + h \<and> ow \<le> x \<and> x < ow + w then t ! (y - oh) ! (x - ow)
      else replicate c 0)"
proof -
  let ?zp = "replicate c (0::'a)"
  let ?f = "\<lambda>row. replicate ow ?zp @ row @ replicate (tw - ow - w) ?zp"
  have len: "length t = h" using assms(1) by (simp add: has_shape_def)
  have pad: "pad_to_bounding_box t oh ow th tw =
      replicate oh (replicate tw ?zp) @ map ?f t @ replicate (th - oh - h) (replicate tw ?zp)"
    using assms(1-3)
    by (simp add: pad_to_bounding_box_def Let_def has_shape_height has_shape_width has_shape_depth)
  have row: "pad_to_bounding_box t oh ow th tw ! y =
      (if oh \<le> y \<and> y < oh + h then ?f (t ! (y - oh)) else replicate tw ?zp)"
    unfolding pad using assms(4,6) len by (subst nth_padded) auto
  show ?thesis
  proof (cases "oh \<le> y \<and> y < oh + h")
    case True
    then have lr: "length (t ! (y - oh)) = w"
      using has_shape_row[OF assms(1), of "y - oh"] by auto
    have "pad_to_bounding_box t oh ow th tw ! y ! x = ?f (t ! (y - oh)) ! x"
      using row True by simp
    also have "\<dots> = (if ow \<le> x \<and> x < ow + w then t ! (y - oh) ! (x - ow) else ?zp)"
      using nth_padded[of x ow "t ! (y - oh)" "tw - ow - w" ?zp] lr assms(5,7) by simp
    finally show ?thesis using True by simp
  next
    case False
    then show ?thesis unfolding row using assms(7) by auto
  qed
qed

lemma pad_shape:
  assumes "has_shape t h w c" "0 < h" "0 < w" "oh + h \<le> th" "ow + w \<le> tw"
  shows "has_shape (pad_to_bounding_box t oh ow th tw) th tw c"
  using assms unfolding has_shape_def
  by (auto simp: pad_to_bounding_box_def Let_def has_shape_height[OF assms(1)] has_shape_width[OF assms(1)]
      has_shape_depth[OF assms(1)])


lemma crop_offset_nat: "0 < t \<Longrightarrow> nat (max ((int n - t) div 2) 0) = (n - nat t) div 2"
  by arith

lemma pad_offset_nat: "0 < t \<Longrightarrow> nat (max ((t - int n) div 2) 0) = (nat t - n) div 2"
  by arith

lemma min_size_nat: "0 < t \<Longrightarrow> nat (min t (int n)) = min (nat t) n"
  by arith

lemma crop_or_pad_eq:
  assumes "has_shape t h w c" "0 < h" "0 < th" "0 < tw"
  shows "resize_image_with_crop_or_pad t th tw =
     Inr (pad_to_bounding_box
            (crop_to_bounding_box t ((h - nat th) div 2) ((w - nat tw) div 2)
               (min (nat th) h) (min (nat tw) w))
            ((nat th - h) div 2) ((nat tw - w) div 2) (nat th) (nat tw))"
  using assms
  by (simp add: resize_image_with_crop_or_pad_def Let_def has_shape_height has_shape_width
      crop_offset_nat pad_offset_nat min_size_nat)

lemma crop_fits: "(h - t) div 2 + min t h \<le> (h::nat)"
  by (cases "t \<le> h") (simp_all add: min_def)

lemma pad_fits: "(t - h) div 2 + min t h \<le> (t::nat)"
  by (cases "t \<le> h") (simp_all add: min_def)

lemma crop_or_pad_shape:
  assumes "has_shape t h w c" "0 < h" "0 < w" "0 < th" "0 < tw"
    and "resize_image_with_crop_or_pad t th tw = Inr p"
  shows "has_shape p (nat th) (nat tw) c"
proof -
  let ?cr = "crop_to_bounding_box t ((h - nat th) div 2) ((w - nat tw) div 2)
               (min (nat th) h) (min (nat tw) w)"
  have cr: "has_shape ?cr (min (nat th) h) (min (nat tw) w) c"
    by (rule crop_shape[OF assms(1) crop_fits crop_fits])
  have mh: "0 < min (nat th) h" and mw: "0 < min (nat tw) w"
    using assms(2-5) by simp_all
  have "has_shape (pad_to_bounding_box ?cr ((nat th - h) div 2) ((nat tw - w) div 2) (nat th) (nat tw))
          (nat th) (nat tw) c"
    by (rule pad_shape[OF cr mh mw pad_fits pad_fits])
  then show ?thesis
    using assms(6) crop_or_pad_eq[OF assms(1,2,4,5)] by simp
qed

lemma crop_or_pad_nth:
  assumes "has_shape t h w c" "0 < h" "0 < w" "0 < th" "0 < tw"
    and "resize_image_with_crop_or_pad t th tw = Inr p"
    and "y < nat th" "x < nat tw"
  shows "p ! y ! x =
     (case content_index h (nat th) y of
        None \<Rightarrow> replicate c 0
      | Some i \<Rightarrow> (case content_index w (nat tw) x of
                     None \<Rightarrow> replicate c 0
                   | Some j \<Rightarrow> t ! i ! j))"
proof -
  define ch cw ph pw mh mw where "ch = (h - nat th) div 2" and "cw = (w - nat tw) div 2"
    and "ph = (nat th - h) div 2" and "pw = (nat tw - w) div 2"
    and "mh = min (nat th) h" and "mw = min (nat tw) w"
  note defs = ch_def cw_def ph_def pw_def mh_def mw_def
  let ?cr = "crop_to_bounding_box t ch cw mh mw"
  have bh: "ch + mh \<le> h" and bw: "cw + mw \<le> w"
    unfolding defs by (rule crop_fits)+
  have cr: "has_shape ?cr mh mw c"
    by (rule crop_shape[OF assms(1) bh bw])
  have p: "p = pad_to_bounding_box ?cr ph pw (nat th) (nat tw)"
    using assms(6) crop_or_pad_eq[OF assms(1,2,4,5)] unfolding defs by simp
  have mh: "0 < mh" and mw: "0 < mw" using assms(2-5) unfolding defs by simp_all
  have ph: "ph + mh \<le> nat th" and pw: "pw + mw \<le> nat tw"
    unfolding defs by (rule pad_fits)+
  have pn: "p ! y ! x =
     (if ph \<le> y \<and> y < ph + mh \<and> pw \<le> x \<and> x < pw + mw
      then ?cr ! (y - ph) ! (x - pw) else replicate c 0)"
    unfolding p by (rule pad_nth[OF cr mh mw ph pw assms(7,8)])
  have ci_h: "content_index h (nat th) y = (if ph \<le> y \<and> y < ph + mh then Some (y - ph + ch) else None)"
    unfolding defs content_index_def Let_def by simp
  have ci_w: "content_index w (nat tw) x = (if pw \<le> x \<and> x < pw + mw then Some (x - pw + cw) else None)"
    unfolding defs content_index_def Let_def by simp
  show ?thesis
  proof (cases "ph \<le> y \<and> y < ph + mh \<and> pw \<le> x \<and> x < pw + mw")
    case True
    then have "y - ph < mh" "x - pw < mw" by linarith+
    then have "?cr ! (y - ph) ! (x - pw) = t ! (ch + (y - ph)) ! (cw + (x - pw))"
      by (rule crop_nth[OF assms(1) bh bw])
    then show ?thesis using True pn ci_h ci_w by (simp add: add.commute)
  next
    case False
    then show ?thesis using pn ci_h ci_w by auto
  qed
qed

lemma resize_shape:
  assumes "has_shape t h w c" "0 < h" "0 < w" "0 < c" "0 < sh" "0 < sw"
    and "resize_nearest_neighbor t (sh, sw) = Inr r"
  shows "has_shape r (nat sh) (nat sw) c"
proof -
  have r: "r = map (\<lambda>y. map (\<lambda>x. t ! nearest_index h (nat sh) y ! nearest_index w (nat sw) x)
                       [0..<nat sw]) [0..<nat sh]"
    using assms(7) unfolding resize_nearest_neighbor_eq[OF assms(1-6)] by simp
  show ?thesis
  proof (rule has_shapeI)
    show "length r = nat sh" by (simp add: r)
    show "length (r ! y) = nat sw" if "y < nat sh" for y using that by (simp add: r)
    show "length (r ! y ! x) = c" if "y < nat sh" "x < nat sw" for y x
      using that assms(2,3)
      by (simp add: r has_shape_px[OF assms(1)] nearest_index_less)
  qed
qed

lemma resize_nth:
  assumes "has_shape t h w c" "0 < h" "0 < w" "0 < c" "0 < sh" "0 < sw"
    and "resize_nearest_neighbor t (sh, sw) = Inr r" and "y < nat sh" "x < nat sw"
  shows "r ! y ! x = t ! nearest_index h (nat sh) y ! nearest_index w (nat sw) x"
  using assms(7-9) unfolding resize_nearest_neighbor_eq[OF assms(1-6)] by auto

lemma resize_InrD:
  assumes "resize_nearest_neighbor t sz = Inr r"
  shows "0 < fst sz \<and> 0 < snd sz \<and> 0 < height t \<and> 0 < width t \<and> 0 < depth t"
  using assms by (auto simp: resize_nearest_neighbor_def Let_def split: if_splits)

lemma crop_or_pad_InrD:
  assumes "resize_image_with_crop_or_pad t th tw = Inr p"
  shows "0 < th \<and> 0 < tw"
  using assms by (auto simp: resize_image_with_crop_or_pad_def split: if_splits)

lemma tf_map_shape: "has_shape t h w c \<Longrightarrow> has_shape (tf_map f t) h w c"
  by (auto simp: has_shape_def tf_map_def)

lemma tf_map_nth:
  "has_shape t h w c \<Longrightarrow> y < h \<Longrightarrow> x < w \<Longrightarrow> tf_map f t ! y ! x = map f (t ! y ! x)"
  by (simp add: tf_map_def has_shape_def)

lemma map2_map_same: "map2 f xs (map g xs) = map (\<lambda>x. f x (g x)) xs"
  by (induction xs) simp_all

lemma mask_out_eq:
  "mask_out t m = tf_map (\<lambda>v. v + (if v = 0 then 1 else 0) * (m + 1) - 1) t"
proof -
  have same: "tf_map2 f s (tf_map g s) = tf_map (\<lambda>v. f v (g v)) s"
    for f :: "int32 \<Rightarrow> int32 \<Rightarrow> int32" and g s
    unfolding tf_map2_def tf_map_def by (simp only: map2_map_same)
  show ?thesis
    unfolding mask_out_def Let_def same by (simp add: tf_map_def)
qed

section \<open>The pipeline as a whole\<close>

lemma transform_InrD:
  assumes "scale_jittering_tensor_with_fixed_size_output img ann out mn mx m u = Inr (oi, oa)"
  shows "\<exists>ri ra ca.
     resize_nearest_neighbor img (scaled_input_shape img out (random_uniform mn mx u)) = Inr ri \<and>
     resize_nearest_neighbor ann (scaled_input_shape img out (random_uniform mn mx u)) = Inr ra \<and>
     resize_image_with_crop_or_pad ri (fst out) (snd out) = Inr oi \<and>
     resize_image_with_crop_or_pad (tf_map (\<lambda>v. v + 1) ra) (fst out) (snd out) = Inr ca \<and>
     oa = mask_out ca m"
  using assms
  by (auto simp: scale_jittering_tensor_with_fixed_size_output_def Let_def split: sum.splits)


lemma valid_inputD:
  assumes "valid_input img ann out"
  shows "has_shape img (height img) (width img) (depth img)"
    and "has_shape ann (height img) (width img) 1"
    and "0 < height img" "0 < width img" "0 < depth img" "0 < fst out" "0 < snd out"
  using assms by (simp_all add: valid_input_def)

lemma content_index_less: "content_index s t y = Some i \<Longrightarrow> i < s"
proof -
  assume a: "content_index s t y = Some i"
  then have "(t - s) div 2 \<le> y" "y < (t - s) div 2 + min t s" "i = y - (t - s) div 2 + (s - t) div 2"
    by (auto simp: content_index_def Let_def split: if_splits)
  moreover have "(s - t) div 2 + min t s \<le> s" by (rule crop_fits)
  ultimately show ?thesis by linarith
qed




lemma output_annotation_nth:
  assumes v: "valid_input img ann out"
    and r: "scale_jittering_tensor_with_fixed_size_output img ann out mn mx m u = Inr (oi, oa)"
    and sz: "scaled_input_shape img out (random_uniform mn mx u) = (sh, sw)"
    and y: "y < nat (fst out)" and x: "x < nat (snd out)"
  shows "oa ! y ! x =
     (case origin (height img) (nat sh) (nat (fst out)) y of
        None \<Rightarrow> [m]
      | Some i \<Rightarrow> (case origin (width img) (nat sw) (nat (snd out)) x of
                     None \<Rightarrow> [m]
                   | Some j \<Rightarrow> map (\<lambda>v. if v = - 1 then m else v) (ann ! i ! j)))"
proof -
  note d = valid_inputD[OF v]
  let ?g = "\<lambda>v::int32. v + (if v = 0 then 1 else 0) * (m + 1) - 1"
  from transform_InrD[OF r] sz obtain ri ra ca where
    ri: "resize_nearest_neighbor img (sh, sw) = Inr ri" and
    ra: "resize_nearest_neighbor ann (sh, sw) = Inr ra" and
    ca: "resize_image_with_crop_or_pad (tf_map (\<lambda>v. v + 1) ra) (fst out) (snd out) = Inr ca" and
    oa: "oa = mask_out ca m"
    by auto
  have spos: "0 < sh" "0 < sw" using resize_InrD[OF ri] by simp_all
  then have npos: "0 < nat sh" "0 < nat sw" by simp_all
  have sra: "has_shape ra (nat sh) (nat sw) 1"
    by (rule resize_shape[OF d(2) d(3,4) zero_less_one spos ra])
  have ssh: "has_shape (tf_map (\<lambda>v. v + 1) ra) (nat sh) (nat sw) 1"
    by (rule tf_map_shape[OF sra])
  have sca: "has_shape ca (nat (fst out)) (nat (snd out)) 1"
    by (rule crop_or_pad_shape[OF ssh npos d(6,7) ca])
  have oan: "oa ! y ! x = map ?g (ca ! y ! x)"
    unfolding oa mask_out_eq by (rule tf_map_nth[OF sca y x])
  have can: "ca ! y ! x =
     (case content_index (nat sh) (nat (fst out)) y of
        None \<Rightarrow> replicate 1 0
      | Some i \<Rightarrow> (case content_index (nat sw) (nat (snd out)) x of
                     None \<Rightarrow> replicate 1 0
                   | Some j \<Rightarrow> tf_map (\<lambda>v. v + 1) ra ! i ! j))"
    by (rule crop_or_pad_nth[OF ssh npos d(6,7) ca y x])
  show ?thesis
  proof (cases "content_index (nat sh) (nat (fst out)) y")
    case None
    then show ?thesis using oan can by (simp add: origin_def)
  next
    case (Some i)
    note Si = this
    show ?thesis
    proof (cases "content_index (nat sw) (nat (snd out)) x")
      case None
      then show ?thesis using oan can Si by (simp add: origin_def)
    next
      case (Some j)
      have i: "i < nat sh" and j: "j < nat sw"
        using content_index_less[OF Si] content_index_less[OF Some] by simp_all
      have "tf_map (\<lambda>v. v + 1) ra ! i ! j = map (\<lambda>v. v + 1) (ra ! i ! j)"
        by (rule tf_map_nth[OF sra i j])
      also have "ra ! i ! j = ann ! nearest_index (height img) (nat sh) i
                                  ! nearest_index (width img) (nat sw) j"
        by (rule resize_nth[OF d(2) d(3,4) zero_less_one spos ra i j])
      finally have "oa ! y ! x = map ?g (map (\<lambda>v. v + 1)
          (ann ! nearest_index (height img) (nat sh) i ! nearest_index (width img) (nat sw) j))"
        using oan can Si Some by simp
      moreover have "?g (v + 1) = (if v = - 1 then m else v)" for v :: int32
        by (simp add: eq_neg_iff_add_eq_0)
      ultimately show ?thesis using Si Some by (simp add: origin_def comp_def)
    qed
  qed
qed

lemma origin_less: "origin n s t y = Some i \<Longrightarrow> 0 < n \<Longrightarrow> i < n"
  by (auto simp: origin_def nearest_index_less)

lemma tensor_values_nth:
  "i < length t \<Longrightarrow> j < length (t ! i) \<Longrightarrow> v \<in> set (t ! i ! j) \<Longrightarrow> v \<in> tensor_values t"
  unfolding tensor_values_def by (meson UN_I nth_mem)

lemma tensor_values_shape:
  assumes "has_shape t h w c" "v \<in> tensor_values t"
  shows "\<exists>y<h. \<exists>x<w. v \<in> set (t ! y ! x)"
proof -
  from assms(2) obtain row px where "row \<in> set t" "px \<in> set row" "v \<in> set px"
    by (auto simp: tensor_values_def)
  then obtain y x where "y < length t" "row = t ! y" "x < length row" "px = row ! x"
    by (metis in_set_conv_nth)
  then show ?thesis
    using assms(1) \<open>v \<in> set px\<close> has_shape_row[OF assms(1), of y]
    by (auto simp: has_shape_def)
qed


lemma upt_2: "[0..<2] = [0, Suc 0]"
  by code_simp
lemma upt_4: "[0..<4] = [0, Suc 0, 2, 3]"
  by code_simp
lemma replicate_4: "replicate 4 x = [x, x, x, x]"
  by (simp add: numeral_eq_Suc)





lemma transform_shapes:
  assumes v: "valid_input img ann out"
    and r: "scale_jittering_tensor_with_fixed_size_output img ann out mn mx m u = Inr (oi, oa)"
  shows "has_shape oi (nat (fst out)) (nat (snd out)) (depth img)"
    and "has_shape oa (nat (fst out)) (nat (snd out)) 1"
proof -
  note d = valid_inputD[OF v]
  obtain sh sw where sz: "scaled_input_shape img out (random_uniform mn mx u) = (sh, sw)"
    by (cases "scaled_input_shape img out (random_uniform mn mx u)")
  from transform_InrD[OF r] sz obtain ri ra ca where
    ri: "resize_nearest_neighbor img (sh, sw) = Inr ri" and
    ra: "resize_nearest_neighbor ann (sh, sw) = Inr ra" and
    oi: "resize_image_with_crop_or_pad ri (fst out) (snd out) = Inr oi" and
    ca: "resize_image_with_crop_or_pad (tf_map (\<lambda>v. v + 1) ra) (fst out) (snd out) = Inr ca" and
    oa: "oa = mask_out ca m"
    by auto
  have spos: "0 < sh" "0 < sw" using resize_InrD[OF ri] by simp_all
  then have npos: "0 < nat sh" "0 < nat sw" by simp_all
  have sri: "has_shape ri (nat sh) (nat sw) (depth img)"
    by (rule resize_shape[OF d(1) d(3,4,5) spos ri])
  have ssh: "has_shape (tf_map (\<lambda>v. v + 1) ra) (nat sh) (nat sw) 1"
    by (rule tf_map_shape[OF resize_shape[OF d(2) d(3,4) zero_less_one spos ra]])
  show "has_shape oi (nat (fst out)) (nat (snd out)) (depth img)"
    by (rule crop_or_pad_shape[OF sri npos d(6,7) oi])
  have "has_shape ca (nat (fst out)) (nat (snd out)) 1"
    by (rule crop_or_pad_shape[OF ssh npos d(6,7) ca])
  then show "has_shape oa (nat (fst out)) (nat (snd out)) 1"
    unfolding oa mask_out_eq by (rule tf_map_shape)
qed



lemma spec_scaled_shape_eq:
  "spec_scaled_shape (height img, width img) out r = scaled_input_shape img out r"
  by (simp add: spec_scaled_shape_def scaled_input_shape_def Let_def)

lemma tf_map_dims:
  "height (tf_map f t) = height t" "width (tf_map f t) = width t" "depth (tf_map f t) = depth t"
  by (auto simp: height_def width_def depth_def tf_map_def split: list.splits)

lemma resize_tf_map:
  assumes s: "has_shape t h w c"
  shows "resize_nearest_neighbor (tf_map f t) sz =
     (case resize_nearest_neighbor t sz of Inl e \<Rightarrow> Inl e | Inr r \<Rightarrow> Inr (tf_map f r))"
proof (cases "0 < fst sz \<and> 0 < snd sz \<and> 0 < depth t \<and> 0 < height t \<and> 0 < width t")
  case False
  then show ?thesis
    by (auto simp: resize_nearest_neighbor_def Let_def tf_map_dims)
next
  case True
  then have h: "height t = h" "width t = w" and pos: "0 < h" "0 < w"
    using has_shape_height[OF s] has_shape_width[OF s] by auto
  have "tf_map f t ! nearest_index h a y ! nearest_index w b x
          = map f (t ! nearest_index h a y ! nearest_index w b x)" for a b y x
    by (rule tf_map_nth[OF s nearest_index_less[OF pos(1)] nearest_index_less[OF pos(2)]])
  then show ?thesis
    using True by (simp add: resize_nearest_neighbor_def Let_def tf_map_dims h)
      (simp add: tf_map_def comp_def)
qed

section \<open>The claims\<close>

text \<open>
  C1.  For every image and annotation with positive spatial dimensions and every output
  shape of positive integers, the image and the annotation that the function returns have
  exactly the spatial dimensions of the output shape; the image keeps its number of
  channels and the annotation its single channel.
\<close>

theorem output_spatial_dimensions:
  assumes "valid_input img ann out"
    and "scale_jittering_tensor_with_fixed_size_output img ann out mn mx m u = Inr (oi, oa)"
  shows "has_shape oi (nat (fst out)) (nat (snd out)) (depth img) \<and>
         has_shape oa (nat (fst out)) (nat (snd out)) 1 \<and>
         (int (height oi), int (width oi)) = out \<and>
         (int (height oa), int (width oa)) = out"
proof -
  note d = valid_inputD[OF assms(1)]
  note s = transform_shapes[OF assms]
  have opos: "0 < nat (fst out)" using d(6) by simp
  have "int (height oi) = fst out" "int (width oi) = snd out"
       "int (height oa) = fst out" "int (width oa) = snd out"
    using has_shape_height[OF s(1)] has_shape_width[OF s(1) opos]
      has_shape_height[OF s(2)] has_shape_width[OF s(2) opos] d(6,7) by simp_all
  then show ?thesis using s by (simp add: prod_eq_iff)
qed

theorem output_spatial_dimensions_witness:
  "valid_input [[[7::int], [8]], [[9], [10]]] [[[1], [1]], [[1], [1]]] (4, 4) \<and>
   scale_jittering_tensor_with_fixed_size_output
     [[[7::int], [8]], [[9], [10]]] [[[1], [1]], [[1], [1]]] (4, 4) (1 / 2) (1 / 2) 255 0
   = Inr ([[[0], [0], [0], [0]], [[0], [7], [8], [0]], [[0], [9], [10], [0]], [[0], [0], [0], [0]]],
          [[[255], [255], [255], [255]], [[255], [1], [1], [255]],
           [[255], [1], [1], [255]], [[255], [255], [255], [255]]]) \<and>
   has_shape [[[0::int], [0], [0], [0]], [[0], [7], [8], [0]], [[0], [9], [10], [0]],
              [[0], [0], [0], [0]]] 4 4 1 \<and>
   has_shape [[[255::int32], [255], [255], [255]], [[255], [1], [1], [255]],
              [[255], [1], [1], [255]], [[255], [255], [255], [255]]] 4 4 1"
proof -
  have v: "valid_input [[[7::int], [8]], [[9], [10]]] [[[1], [1]], [[1], [1]]] (4, 4)"
    by (simp add: valid_input_def has_shape_def height_def width_def depth_def)
  have r: "scale_jittering_tensor_with_fixed_size_output
     [[[7::int], [8]], [[9], [10]]] [[[1], [1]], [[1], [1]]] (4, 4) (1 / 2) (1 / 2) 255 0
   = Inr ([[[0], [0], [0], [0]], [[0], [7], [8], [0]], [[0], [9], [10], [0]], [[0], [0], [0], [0]]],
          [[[255], [255], [255], [255]], [[255], [1], [1], [255]],
           [[255], [1], [1], [255]], [[255], [255], [255], [255]]])"
    by code_simp
  show ?thesis
    using v r output_spatial_dimensions[OF v r] by (simp add: depth_def)
qed



text \<open>
  C3.  Every value in the output annotation is the mask-out number or a class id that
  occurs in the input annotation.  (The theorem does not need the class ids to be
  non-negative.)
\<close>

theorem no_spurious_classes:
  assumes v: "valid_input img ann out"
    and r: "scale_jittering_tensor_with_fixed_size_output img ann out mn mx m u = Inr (oi, oa)"
  shows "tensor_values oa \<subseteq> insert m (tensor_values ann)"
proof
  fix c assume c: "c \<in> tensor_values oa"
  note d = valid_inputD[OF v]
  let ?sz = "scaled_input_shape img out (random_uniform mn mx u)"
  have sz: "?sz = (fst ?sz, snd ?sz)" by simp
  obtain sh sw where shw: "?sz = (sh, sw)" by (cases ?sz)
  from transform_InrD[OF r] shw obtain ri ra ca where
    ri: "resize_nearest_neighbor img (sh, sw) = Inr ri" and
    ra: "resize_nearest_neighbor ann (sh, sw) = Inr ra" and
    ca: "resize_image_with_crop_or_pad (tf_map (\<lambda>v. v + 1) ra) (fst out) (snd out) = Inr ca" and
    oa: "oa = mask_out ca m"
    by auto
  have spos: "0 < sh" "0 < sw" using resize_InrD[OF ri] by simp_all
  then have npos: "0 < nat sh" "0 < nat sw" by simp_all
  have ssh: "has_shape (tf_map (\<lambda>v. v + 1) ra) (nat sh) (nat sw) 1"
    by (rule tf_map_shape[OF resize_shape[OF d(2) d(3,4) zero_less_one spos ra]])
  have "has_shape ca (nat (fst out)) (nat (snd out)) 1"
    by (rule crop_or_pad_shape[OF ssh npos d(6,7) ca])
  then have soa: "has_shape oa (nat (fst out)) (nat (snd out)) 1"
    unfolding oa mask_out_eq by (rule tf_map_shape)
  from tensor_values_shape[OF soa c] obtain y x where
    y: "y < nat (fst out)" and x: "x < nat (snd out)" and cin: "c \<in> set (oa ! y ! x)" by blast
  note n = output_annotation_nth[OF v r sz y x]
  show "c \<in> insert m (tensor_values ann)"
  proof (cases "origin (height img) (nat (fst ?sz)) (nat (fst out)) y")
    case None
    then show ?thesis using n cin by simp
  next
    case (Some i)
    note Si = this
    show ?thesis
    proof (cases "origin (width img) (nat (snd ?sz)) (nat (snd out)) x")
      case None
      then show ?thesis using n Si cin by simp
    next
      case (Some j)
      have i: "i < length ann" using origin_less[OF Si d(3)] d(2) by (simp add: has_shape_def)
      have j: "j < length (ann ! i)"
        using origin_less[OF Some d(4)] has_shape_row[OF d(2)] origin_less[OF Si d(3)] by simp
      have "c \<in> set (map (\<lambda>v. if v = - 1 then m else v) (ann ! i ! j))"
        using n Si Some cin by simp
      then have "c = m \<or> c \<in> set (ann ! i ! j)" by (auto split: if_splits)
      then show ?thesis using tensor_values_nth[OF i j] by auto
    qed
  qed
qed

theorem no_spurious_classes_witness:
  "valid_input [[[1::int], [2]], [[3], [4]]] [[[4::int32], [9]], [[0], [7]]] (1, 3) \<and>
   scale_jittering_tensor_with_fixed_size_output [[[1::int], [2]], [[3], [4]]] [[[4::int32], [9]], [[0], [7]]] (1, 3) 1 1 255 0
     = Inr ([[[0], [1], [0]]], [[[255], [4], [255]]]) \<and>
   tensor_values [[[255], [4], [255]]] \<subseteq> insert 255 (tensor_values [[[4::int32], [9]], [[0], [7]]])"
proof -
  have v: "valid_input [[[1::int], [2]], [[3], [4]]] [[[4::int32], [9]], [[0], [7]]] (1, 3)"
    by (simp add: valid_input_def has_shape_def height_def width_def depth_def)
  have r: "scale_jittering_tensor_with_fixed_size_output [[[1::int], [2]], [[3], [4]]] [[[4::int32], [9]], [[0], [7]]] (1, 3) 1 1 255 0
     = Inr ([[[0], [1], [0]]], [[[255], [4], [255]]])"
    by code_simp
  show ?thesis
    by (rule conjI[OF v conjI[OF r no_spurious_classes[OF v r]]])
qed






text \<open>
  C6.  The pipeline of the specification, which shifts the annotation by one and then
  resizes the shifted annotation, returns what the function returns, which resizes the
  annotation and then shifts the result: the shift commutes with the nearest-neighbour
  resize, for every valid input and every draw.
\<close>

theorem shift_commutes_with_resize:
  assumes v: "valid_input img ann out"
  shows "spec_transform img ann out mn mx m u
           = scale_jittering_tensor_with_fixed_size_output img ann out mn mx m u"
proof -
  note d = valid_inputD[OF v]
  show ?thesis
    unfolding spec_transform_def scale_jittering_tensor_with_fixed_size_output_def Let_def
      spec_scaled_shape_eq resize_tf_map[OF d(2)] mask_out_eq
    by (simp split: sum.splits)
qed

theorem shift_commutes_with_resize_witness:
  "valid_input [[[5::int], [6]]] [[[0::int32], [2]]] (3::int, 3::int) \<and>
   spec_transform [[[5::int], [6]]] [[[0::int32], [2]]] (3::int, 3::int) 1 2 255 (1 / 2)
     = scale_jittering_tensor_with_fixed_size_output [[[5::int], [6]]] [[[0::int32], [2]]] (3::int, 3::int) 1 2 255 (1 / 2) \<and>
   scale_jittering_tensor_with_fixed_size_output [[[5::int], [6]]] [[[0::int32], [2]]] (3::int, 3::int) 1 2 255 (1 / 2)
     = Inr ([[[5], [5], [6]], [[5], [5], [6]], [[0], [0], [0]]],
            [[[0], [0], [2]], [[0], [0], [2]], [[255], [255], [255]]])"
proof -
  have v: "valid_input [[[5::int], [6]]] [[[0::int32], [2]]] (3::int, 3::int)"
    by (simp add: valid_input_def has_shape_def height_def width_def depth_def)
  have r: "scale_jittering_tensor_with_fixed_size_output [[[5::int], [6]]] [[[0::int32], [2]]] (3::int, 3::int) 1 2 255 (1 / 2)
     = Inr ([[[5], [5], [6]], [[5], [5], [6]], [[0], [0], [0]]],
            [[[0], [0], [2]], [[0], [0], [2]], [[255], [255], [255]]])"
    by code_simp
  show ?thesis
    by (rule conjI[OF v conjI[OF shift_commutes_with_resize[OF v] r]])
qed





text \<open>
  C9.  For an image of shape 2x2x1, an annotation of shape 2x2x1 whose samples are all
  class 1, the output shape (4, 4) and a draw of 0.5 (both scale bounds are 0.5), the output
  annotation is 4x4 with a centred 2x2 block of class 1, and every sample of the border
  around it is the mask-out number.
\<close>

theorem scenario_centered_block: "scale_jittering_tensor_with_fixed_size_output
     [[[a], [b]], [[c], [d]]] [[[1], [1]], [[1], [1]]] (4, 4) (1 / 2) (1 / 2) m u
   = Inr ([[[0], [0], [0], [0]], [[0], [a], [b], [0]], [[0], [c], [d], [0]], [[0], [0], [0], [0]]],
          [[[m], [m], [m], [m]], [[m], [1], [1], [m]], [[m], [1], [1], [m]], [[m], [m], [m], [m]]])"
  by (simp add: scale_jittering_tensor_with_fixed_size_output_def scaled_input_shape_def
      random_uniform_def tf_round_def resize_nearest_neighbor_def nearest_index_div
      resize_image_with_crop_or_pad_def crop_to_bounding_box_def pad_to_bounding_box_def
      mask_out_eq tf_map_def height_def width_def depth_def Let_def upt_2 upt_4 replicate_4
      numeral_2_eq_2[symmetric])

text \<open>
  C10.  There is an input whose annotation holds the value -1 at a sample that survives
  the resize and the crop, and the output sample there is the mask-out number: the shift
  by one turns -1 into 0, which the test for padding cannot tell from a padded sample.
\<close>

theorem minus_one_becomes_mask_out_number: "scale_jittering_tensor_with_fixed_size_output
     [[[a], [b]], [[c], [d]]] [[[0], [- 1]], [[3], [5]]] (2, 2) 1 1 m u
   = Inr ([[[a], [b]], [[c], [d]]], [[[0], [m]], [[3], [5]]])"
  by (simp add: scale_jittering_tensor_with_fixed_size_output_def scaled_input_shape_def
      random_uniform_def tf_round_def resize_nearest_neighbor_def nearest_index_div
      resize_image_with_crop_or_pad_def crop_to_bounding_box_def pad_to_bounding_box_def
      mask_out_eq tf_map_def height_def width_def depth_def Let_def upt_2 upt_4
      numeral_2_eq_2[symmetric])

end
